theory Spec2Isabelle
  imports Main "HOL-Library.Sublist"
begin

section \<open>Data model\<close>

text \<open>
  The filter of \<^verbatim>\<open>kfileitemmodelfilter.cpp\<close> inspects three attributes of a
  \<^verbatim>\<open>KFileItem\<close>: \<^verbatim>\<open>text()\<close>, \<^verbatim>\<open>isHidden()\<close> and \<^verbatim>\<open>mimetype()\<close>.
  A \<^verbatim>\<open>QString\<close> is a \<open>string\<close>, a \<^verbatim>\<open>QStringList\<close> a \<open>string list\<close>.
\<close>

record KFileItem =
  itemText :: string
  isHidden :: bool
  mimetype :: string

text \<open>
  A \<^verbatim>\<open>QRegularExpression\<close> object, as far as the filter uses it: the pattern
  string and the pattern options it was given.
\<close>

datatype PatternOption = NoPatternOption | CaseInsensitiveOption

record QRegularExpression =
  rx_pattern :: string
  rx_options :: PatternOption

text \<open>
  The Qt functions the filter calls. They belong to the Qt library, not to this
  repository, so the filter is modelled over an arbitrary implementation \<open>q\<close> of
  them: \<^verbatim>\<open>QString::toLower\<close>, \<^verbatim>\<open>QString::trimmed\<close>,
  \<^verbatim>\<open>QRegularExpression::wildcardToRegularExpression\<close>,
  \<^verbatim>\<open>QRegularExpression::escape\<close>, \<^verbatim>\<open>QRegularExpression::isValid\<close> and
  \<^verbatim>\<open>regExp.match(name).hasMatch()\<close>.
\<close>

record QtApi =
  toLower :: "string \<Rightarrow> string"
  trimmed :: "string \<Rightarrow> string"
  wildcardToRegularExpression :: "string \<Rightarrow> string"
  escape :: "string \<Rightarrow> string"
  isValid :: "QRegularExpression \<Rightarrow> bool"
  hasMatch :: "QRegularExpression \<Rightarrow> string \<Rightarrow> bool"

text \<open>
  The members of \<^verbatim>\<open>KFileItemModelFilter\<close>. The owned pointer \<^verbatim>\<open>m_regExp\<close> is an
  option: \<open>None\<close> is \<^verbatim>\<open>nullptr\<close>.
\<close>

record KFileItemModelFilter =
  m_useRegExp :: bool
  m_regExp :: "QRegularExpression option"
  m_lowerCasePattern :: string
  m_pattern :: string
  m_mimeTypes :: "string list"
  m_excludeMimeTypes :: "string list"
  m_hiddenFilesShown :: bool
  m_hiddenWhitelistEnabled :: bool
  m_hiddenWhitelist :: "string list"
  m_hiddenWhitelistRegExps :: "QRegularExpression list"

section \<open>String helpers\<close>

text \<open>\<^verbatim>\<open>QString::contains(const QString &)\<close>: the needle occurs somewhere in the string.\<close>

fun contains :: "string \<Rightarrow> string \<Rightarrow> bool" where
  "contains [] needle = (needle = [])"
| "contains (c # cs) needle = (prefix needle (c # cs) \<or> contains cs needle)"

text \<open>
  The test both \<^verbatim>\<open>setPattern\<close> and \<^verbatim>\<open>updateHiddenWhitelistRegExps\<close> make:
  the string contains a \<^verbatim>\<open>*\<close>, a \<^verbatim>\<open>?\<close> or a \<^verbatim>\<open>[\<close>.
\<close>

definition containsWildcard :: "string \<Rightarrow> bool" where
  "containsWildcard s \<longleftrightarrow>
     CHR ''*'' \<in> set s \<or> CHR ''?'' \<in> set s \<or> CHR ''['' \<in> set s"

section \<open>The filter\<close>

text \<open>The constructor's initialiser list; the two MIME lists are default-constructed.\<close>

definition newFilter :: KFileItemModelFilter where
  "newFilter =
     \<lparr> m_useRegExp = False,
       m_regExp = None,
       m_lowerCasePattern = [],
       m_pattern = [],
       m_mimeTypes = [],
       m_excludeMimeTypes = [],
       m_hiddenFilesShown = True,
       m_hiddenWhitelistEnabled = False,
       m_hiddenWhitelist = [],
       m_hiddenWhitelistRegExps = [] \<rparr>"

definition setPattern :: "QtApi \<Rightarrow> string \<Rightarrow> KFileItemModelFilter \<Rightarrow> KFileItemModelFilter" where
  "setPattern q filter' f =
     (let f1 = f\<lparr> m_pattern := filter', m_lowerCasePattern := toLower q filter' \<rparr>
      in if containsWildcard filter'
         then
           (let regExp0 =
                  (case m_regExp f1 of
                     None \<Rightarrow> \<lparr> rx_pattern = [], rx_options = CaseInsensitiveOption \<rparr>
                   | Some r \<Rightarrow> r);
                regExp = regExp0\<lparr> rx_pattern := wildcardToRegularExpression q filter' \<rparr>
            in f1\<lparr> m_regExp := Some regExp, m_useRegExp := isValid q regExp \<rparr>)
         else f1\<lparr> m_useRegExp := False \<rparr>)"

definition pattern :: "KFileItemModelFilter \<Rightarrow> string" where
  "pattern f = m_pattern f"

definition setMimeTypes :: "string list \<Rightarrow> KFileItemModelFilter \<Rightarrow> KFileItemModelFilter" where
  "setMimeTypes types f = f\<lparr> m_mimeTypes := types \<rparr>"

definition mimeTypes :: "KFileItemModelFilter \<Rightarrow> string list" where
  "mimeTypes f = m_mimeTypes f"

definition setExcludeMimeTypes :: "string list \<Rightarrow> KFileItemModelFilter \<Rightarrow> KFileItemModelFilter" where
  "setExcludeMimeTypes types f = f\<lparr> m_excludeMimeTypes := types \<rparr>"

definition excludeMimeTypes :: "KFileItemModelFilter \<Rightarrow> string list" where
  "excludeMimeTypes f = m_excludeMimeTypes f"

definition setHiddenFilesShown :: "bool \<Rightarrow> KFileItemModelFilter \<Rightarrow> KFileItemModelFilter" where
  "setHiddenFilesShown shown f = f\<lparr> m_hiddenFilesShown := shown \<rparr>"

definition hiddenFilesShown :: "KFileItemModelFilter \<Rightarrow> bool" where
  "hiddenFilesShown f = m_hiddenFilesShown f"

definition setHiddenFilesWhitelistEnabled :: "bool \<Rightarrow> KFileItemModelFilter \<Rightarrow> KFileItemModelFilter" where
  "setHiddenFilesWhitelistEnabled enabled f = f\<lparr> m_hiddenWhitelistEnabled := enabled \<rparr>"

definition hiddenFilesWhitelistEnabled :: "KFileItemModelFilter \<Rightarrow> bool" where
  "hiddenFilesWhitelistEnabled f = m_hiddenWhitelistEnabled f"

text \<open>
  The loop of \<^verbatim>\<open>updateHiddenWhitelistRegExps\<close> over \<^verbatim>\<open>m_hiddenWhitelist\<close>; the
  last argument is \<^verbatim>\<open>m_hiddenWhitelistRegExps\<close> as built so far
  (\<^verbatim>\<open>append\<close> adds at the end, \<^verbatim>\<open>continue\<close> goes to the next entry).
\<close>

fun whitelistLoop :: "QtApi \<Rightarrow> string list \<Rightarrow> QRegularExpression list \<Rightarrow> QRegularExpression list" where
  "whitelistLoop q [] regExps = regExps"
| "whitelistLoop q (p # ps) regExps =
     (let t = trimmed q p
      in if t = [] then whitelistLoop q ps regExps
         else if containsWildcard t
         then
           (let regExp0 = \<lparr> rx_pattern = wildcardToRegularExpression q t,
                            rx_options = NoPatternOption \<rparr>;
                regExp = regExp0\<lparr> rx_options := CaseInsensitiveOption \<rparr>
            in if isValid q regExp
               then whitelistLoop q ps (regExps @ [regExp])
               else whitelistLoop q ps regExps)
         else
           (let regExp0 = \<lparr> rx_pattern = ''^'' @ escape q t @ ''$'',
                            rx_options = NoPatternOption \<rparr>;
                regExp = regExp0\<lparr> rx_options := CaseInsensitiveOption \<rparr>
            in whitelistLoop q ps (regExps @ [regExp])))"

definition updateHiddenWhitelistRegExps :: "QtApi \<Rightarrow> KFileItemModelFilter \<Rightarrow> KFileItemModelFilter" where
  "updateHiddenWhitelistRegExps q f =
     (let f1 = f\<lparr> m_hiddenWhitelistRegExps := [] \<rparr>
      in f1\<lparr> m_hiddenWhitelistRegExps :=
              whitelistLoop q (m_hiddenWhitelist f1) (m_hiddenWhitelistRegExps f1) \<rparr>)"

definition setHiddenFilesWhitelist :: "QtApi \<Rightarrow> string list \<Rightarrow> KFileItemModelFilter \<Rightarrow> KFileItemModelFilter" where
  "setHiddenFilesWhitelist q patterns f =
     updateHiddenWhitelistRegExps q (f\<lparr> m_hiddenWhitelist := patterns \<rparr>)"

definition hiddenFilesWhitelist :: "KFileItemModelFilter \<Rightarrow> string list" where
  "hiddenFilesWhitelist f = m_hiddenWhitelist f"

text \<open>The loop of \<^verbatim>\<open>matchesHiddenWhitelist\<close>: the first matcher that matches returns true.\<close>

fun anyRegExpMatches :: "QtApi \<Rightarrow> QRegularExpression list \<Rightarrow> string \<Rightarrow> bool" where
  "anyRegExpMatches q [] name = False"
| "anyRegExpMatches q (regExp # rest) name =
     (if hasMatch q regExp name then True else anyRegExpMatches q rest name)"

definition matchesHiddenWhitelist :: "QtApi \<Rightarrow> KFileItemModelFilter \<Rightarrow> KFileItem \<Rightarrow> bool" where
  "matchesHiddenWhitelist q f item =
     (let name = itemText item in anyRegExpMatches q (m_hiddenWhitelistRegExps f) name)"

definition hasSetFilters :: "KFileItemModelFilter \<Rightarrow> bool" where
  "hasSetFilters f \<longleftrightarrow>
     m_pattern f \<noteq> [] \<or> m_mimeTypes f \<noteq> [] \<or> m_excludeMimeTypes f \<noteq> []
     \<or> \<not> m_hiddenFilesShown f"

text \<open>
  \<^verbatim>\<open>matchesPattern\<close> dereferences \<^verbatim>\<open>m_regExp\<close> when \<^verbatim>\<open>m_useRegExp\<close> is set. The
  result is an option: \<open>None\<close> is the dereference of a null pointer.
\<close>

definition matchesPattern :: "QtApi \<Rightarrow> KFileItemModelFilter \<Rightarrow> KFileItem \<Rightarrow> bool option" where
  "matchesPattern q f item =
     (if m_useRegExp f
      then (case m_regExp f of
              None \<Rightarrow> None
            | Some regExp \<Rightarrow> Some (hasMatch q regExp (itemText item)))
      else Some (contains (toLower q (itemText item)) (m_lowerCasePattern f)))"

definition matchesType :: "KFileItemModelFilter \<Rightarrow> KFileItem \<Rightarrow> bool" where
  "matchesType f item =
     (let excluded = list_ex (\<lambda>excludeMimetype. mimetype item = excludeMimetype)
                       (m_excludeMimeTypes f)
      in if excluded then False
         else
           (let included = list_ex (\<lambda>mimeType. mimetype item = mimeType) (m_mimeTypes f)
            in if included then True else m_mimeTypes f = []))"

text \<open>
  The second half of \<^verbatim>\<open>matches\<close>, from \<^verbatim>\<open>hasPatternFilter\<close> on: the
  combination of the name filter and the MIME-type filter. In
  \<^verbatim>\<open>matchesPattern(item) && matchesType(item)\<close> the left operand is evaluated first.
\<close>

definition matchesFilters :: "QtApi \<Rightarrow> KFileItemModelFilter \<Rightarrow> KFileItem \<Rightarrow> bool option" where
  "matchesFilters q f item =
     (let hasPatternFilter = (m_pattern f \<noteq> []);
          hasMimeTypesFilter = (m_mimeTypes f \<noteq> [] \<or> m_excludeMimeTypes f \<noteq> [])
      in if \<not> hasPatternFilter \<and> \<not> hasMimeTypesFilter then Some True
         else if hasPatternFilter \<and> hasMimeTypesFilter
         then (case matchesPattern q f item of
                 None \<Rightarrow> None
               | Some b \<Rightarrow> Some (b \<and> matchesType f item))
         else if hasPatternFilter then matchesPattern q f item
         else Some (matchesType f item))"

text \<open>
  \<^verbatim>\<open>matches\<close>: the check of hidden files first, with its early \<^verbatim>\<open>return false\<close>,
  then the filters.
\<close>

definition matches :: "QtApi \<Rightarrow> KFileItemModelFilter \<Rightarrow> KFileItem \<Rightarrow> bool option" where
  "matches q f item =
     (if \<not> m_hiddenFilesShown f \<and> isHidden item
      then
        (if m_hiddenWhitelistEnabled f \<and> matchesHiddenWhitelist q f item
         then matchesFilters q f item
         else Some False)
      else matchesFilters q f item)"

text \<open>
  The states a filter object can be in: the constructed one, and every state a setter
  produces from one of them.
\<close>

inductive reachable :: "QtApi \<Rightarrow> KFileItemModelFilter \<Rightarrow> bool" for q :: QtApi where
  r_new: "reachable q newFilter"
| r_setPattern: "reachable q f \<Longrightarrow> reachable q (setPattern q filter' f)"
| r_setMimeTypes: "reachable q f \<Longrightarrow> reachable q (setMimeTypes types f)"
| r_setExcludeMimeTypes: "reachable q f \<Longrightarrow> reachable q (setExcludeMimeTypes types f)"
| r_setHiddenFilesShown: "reachable q f \<Longrightarrow> reachable q (setHiddenFilesShown shown f)"
| r_setHiddenFilesWhitelistEnabled:
    "reachable q f \<Longrightarrow> reachable q (setHiddenFilesWhitelistEnabled enabled f)"
| r_setHiddenFilesWhitelist:
    "reachable q f \<Longrightarrow> reachable q (setHiddenFilesWhitelist q patterns f)"

section \<open>A model of the Qt functions\<close>

text \<open>
  The theorems about the filter hold for every implementation \<open>q\<close> of the Qt functions.
  What a concrete name matches depends on what Qt computes, so this section models the
  functions from the documentation of Qt 6 (\<^verbatim>\<open>QString\<close>, \<^verbatim>\<open>QRegularExpression\<close>) and
  of the PCRE2 pattern syntax, within these limits:
  \<^item> a character is a \<open>char\<close>, which stands for the character of Unicode with the same
    code, below 256. Lower case, the other case of a letter in a case-insensitive match
    and white space are those of Unicode on these characters;
  \<^item> a regular expression is interpreted only when it is \<^verbatim>\<open>\A(?:\<close>\<open>items\<close>\<^verbatim>\<open>)\z\<close>,
    \<^verbatim>\<open>^\<close>\<open>items\<close>\<^verbatim>\<open>$\<close> or \<open>items\<close> alone. An item is an atom, or an atom followed by
    \<^verbatim>\<open>*\<close>; an atom is an escaped character that is no letter or digit, a character
    that is no metacharacter, or a character class \<^verbatim>\<open>[...]\<close> of characters and ranges.
    These are the patterns the filter builds from a wildcard pattern whose bracket
    expressions list characters and ranges, and from a literal whitelist entry. For every other pattern, validity
    and matching are left to two parameters of the model, about which nothing is
    assumed.
\<close>

subsection \<open>Strings\<close>

abbreviation backslash :: char where "backslash \<equiv> CHR 0x5C"

text \<open>
  \<^verbatim>\<open>QString::toLower\<close>: the letters \<^verbatim>\<open>A\<close> to \<^verbatim>\<open>Z\<close> and the capital letters from
  code 192 to code 222 (215 is the multiplication sign) have their lower-case form 32
  codes above.
\<close>

definition qt_toLowerChar :: "char \<Rightarrow> char" where
  "qt_toLowerChar c =
     (let n = (of_char c :: nat)
      in if (65 \<le> n \<and> n \<le> 90) \<or> (192 \<le> n \<and> n \<le> 222 \<and> n \<noteq> 215)
         then char_of (n + 32) else c)"

definition qt_toLower :: "string \<Rightarrow> string" where
  "qt_toLower s = map qt_toLowerChar s"

text \<open>
  \<^verbatim>\<open>QString::trimmed\<close>: white space removed from the start and the end. The
  characters for which \<^verbatim>\<open>QChar::isSpace\<close> holds are the codes 9 to 13, the space,
  the next-line character and the no-break space.
\<close>

definition qt_isSpace :: "char \<Rightarrow> bool" where
  "qt_isSpace c \<longleftrightarrow>
     c \<in> set [CHR 0x09, CHR 0x0A, CHR 0x0B, CHR 0x0C, CHR 0x0D, CHR 0x20, CHR 0x85, CHR 0xA0]"

definition qt_trimmed :: "string \<Rightarrow> string" where
  "qt_trimmed s = rev (dropWhile qt_isSpace (rev (dropWhile qt_isSpace s)))"

subsection \<open>Escaping and wildcard conversion\<close>

text \<open>
  \<^verbatim>\<open>QRegularExpression::escape\<close>: every character but \<^verbatim>\<open>[a-zA-Z0-9_]\<close> gets a
  backslash; the null character becomes \<^verbatim>\<open>\0\<close>.
\<close>

definition qt_isWordChar :: "char \<Rightarrow> bool" where
  "qt_isWordChar c \<longleftrightarrow>
     c \<in> set ''abcdefghijklmnopqrstuvwxyzABCDEFGHIJKLMNOPQRSTUVWXYZ0123456789_''"

fun qt_escape :: "string \<Rightarrow> string" where
  "qt_escape [] = []"
| "qt_escape (c # cs) =
     (if c = CHR 0x00 then [backslash, CHR ''0''] @ qt_escape cs
      else if \<not> qt_isWordChar c then [backslash, c] @ qt_escape cs
      else c # qt_escape cs)"

text \<open>\<^verbatim>\<open>QRegularExpression::anchoredPattern\<close>.\<close>

definition qt_anchoredPattern :: "string \<Rightarrow> string" where
  "qt_anchoredPattern expression = [backslash, CHR ''A''] @ ''(?:'' @ expression @ '')'' @ [backslash, CHR ''z'']"

text \<open>
  \<^verbatim>\<open>QRegularExpression::wildcardToRegularExpression\<close> with its default options, on a
  system whose path separator is \<^verbatim>\<open>/\<close>. The loop over the pattern appends to \<open>rx\<close>:
  \<^verbatim>\<open>*\<close> (a run of them counts once) becomes \<^verbatim>\<open>[^/]*\<close>, \<^verbatim>\<open>?\<close> becomes \<^verbatim>\<open>[^/]\<close>, the
  characters \<^verbatim>\<open>\ $ ( ) + . ^ { | }\<close> get a backslash, and a \<^verbatim>\<open>[\<close> copies a bracket
  expression (\<^verbatim>\<open>!\<close> after the bracket becomes \<^verbatim>\<open>^\<close>). A \<^verbatim>\<open>/\<close> inside a bracket
  expression makes the function return what it has converted so far; otherwise the
  result is anchored.
\<close>

datatype Conversion = Finished string | ReturnedEarly string

datatype BracketResult = Continue string string | Return string

fun qt_bracketLoop :: "string \<Rightarrow> string \<Rightarrow> BracketResult" where
  "qt_bracketLoop [] rx = Continue [] rx"
| "qt_bracketLoop (c # cs) rx =
     (if c = CHR '']'' then Continue (c # cs) rx
      else if c = CHR ''/'' then Return rx
      else qt_bracketLoop cs (if c = backslash then rx @ [backslash, c] else rx @ [c]))"

definition qt_bracket :: "string \<Rightarrow> string \<Rightarrow> BracketResult" where
  "qt_bracket cs rx =
     (if cs = [] then Continue cs rx
      else
        (let (cs1, rx1) = (if hd cs = CHR ''!'' then (tl cs, rx @ ''^'') else (cs, rx));
             (cs2, rx2) = (if cs1 \<noteq> [] \<and> hd cs1 = CHR '']''
                           then (tl cs1, rx1 @ '']'') else (cs1, rx1))
         in qt_bracketLoop cs2 rx2))"

lemma qt_bracketLoop_length:
  "qt_bracketLoop cs rx = Continue rest rx' \<Longrightarrow> length rest \<le> length cs"
  by (induction cs rx rule: qt_bracketLoop.induct) (auto split: if_splits)

lemma qt_bracket_length:
  "qt_bracket cs rx = Continue rest rx' \<Longrightarrow> length rest \<le> length cs"
  by (cases cs; cases "tl cs")
     (auto simp: qt_bracket_def Let_def split: if_splits dest!: qt_bracketLoop_length)

text \<open>
  What the loop copies for the characters of a bracket expression: each of them, a
  backslash twice.
\<close>

fun qt_classText :: "string \<Rightarrow> string" where
  "qt_classText [] = []"
| "qt_classText (c # cs) = (if c = backslash then [backslash, c] else [c]) @ qt_classText cs"

function qt_wildcardLoop :: "string \<Rightarrow> string \<Rightarrow> Conversion" where
  "qt_wildcardLoop [] rx = Finished rx"
| "qt_wildcardLoop (c # cs) rx =
     (if c = CHR ''*'' then qt_wildcardLoop (dropWhile (\<lambda>x. x = CHR ''*'') cs) (rx @ ''[^/]*'')
      else if c = CHR ''?'' then qt_wildcardLoop cs (rx @ ''[^/]'')
      else if c \<in> set (backslash # ''$()+.^{|}'') then qt_wildcardLoop cs (rx @ [backslash, c])
      else if c = CHR ''[''
      then (case qt_bracket cs (rx @ [c]) of
              Return early \<Rightarrow> ReturnedEarly early
            | Continue cs' rx' \<Rightarrow> qt_wildcardLoop cs' rx')
      else qt_wildcardLoop cs (rx @ [c]))"
  by pat_completeness auto
termination
proof (relation "measure (\<lambda>(s, rx). length s)", goal_cases)
  case (2 c cs rx)
  have "length (dropWhile (\<lambda>x. x = CHR ''*'') cs) \<le> length cs" by (rule length_dropWhile_le)
  then show ?case by simp
next
  case (5 c cs rx cs' rx')
  then have "length cs' \<le> length cs" by (auto dest: qt_bracket_length)
  then show ?case by simp
qed auto

definition qt_wildcardToRegularExpression :: "string \<Rightarrow> string" where
  "qt_wildcardToRegularExpression p =
     (case qt_wildcardLoop p [] of
        ReturnedEarly rx \<Rightarrow> rx
      | Finished rx \<Rightarrow> qt_anchoredPattern rx)"



subsection \<open>Regular expressions\<close>

text \<open>
  The interpreted patterns are sequences of items: an atom, or an atom followed by
  \<^verbatim>\<open>*\<close>. An atom is a literal character or a character class \<^verbatim>\<open>[...]\<close>, kept as
  its negation flag and its ranges (a single member \<open>c\<close> is the range from \<open>c\<close> to
  \<open>c\<close>).
\<close>

datatype Atom = Literal char | CharClass bool "(char \<times> char) list"

datatype RegexItem = One Atom | Many Atom

datatype Regex =
    AnchoredGroup "RegexItem list"
  | CaretDollar "RegexItem list"
  | Unanchored "RegexItem list"

definition pcre_isMeta :: "char \<Rightarrow> bool" where
  "pcre_isMeta c \<longleftrightarrow> c \<in> set (backslash # ''^$.[|()?*+{'')"

definition pcre_isAlnum :: "char \<Rightarrow> bool" where
  "pcre_isAlnum c \<longleftrightarrow>
     c \<in> set ''abcdefghijklmnopqrstuvwxyzABCDEFGHIJKLMNOPQRSTUVWXYZ0123456789''"

text \<open>
  One member character of a class and the text after it: a character that stands for
  itself, or a backslash before a character that is no letter or digit. A \<^verbatim>\<open>]\<close> is a
  member only in the first place of the class. A backslash before a letter or digit,
  and a \<^verbatim>\<open>[\<close> before \<^verbatim>\<open>:\<close>, \<^verbatim>\<open>.\<close> or \<^verbatim>\<open>=\<close>, are not interpreted.
\<close>

definition pcre_classLiteral :: "bool \<Rightarrow> string \<Rightarrow> (char \<times> string) option" where
  "pcre_classLiteral first s =
     (case s of
        [] \<Rightarrow> None
      | c # cs \<Rightarrow>
          if c = CHR '']'' then (if first then Some (c, cs) else None)
          else if c = backslash
          then (case cs of
                  [] \<Rightarrow> None
                | e # cs' \<Rightarrow> if pcre_isAlnum e then None else Some (e, cs'))
          else if c = CHR ''['' \<and> (cs = [] \<or> hd cs \<in> set '':.='') then None
          else Some (c, cs))"

text \<open>
  After a member, a hyphen that is not followed by the closing bracket starts a range:
  the text from the end of the range on.
\<close>

definition pcre_rangeEnd :: "string \<Rightarrow> string option" where
  "pcre_rangeEnd s =
     (case s of
        m # d # rest \<Rightarrow> if m = CHR ''-'' \<and> d \<noteq> CHR '']'' then Some (d # rest) else None
      | _ \<Rightarrow> None)"

lemma pcre_classLiteral_length:
  "pcre_classLiteral first s = Some (c, rest) \<Longrightarrow> length rest < length s"
  by (auto simp: pcre_classLiteral_def split: list.splits if_splits)

lemma pcre_rangeEnd_length:
  "pcre_rangeEnd s = Some rest \<Longrightarrow> length rest < length s"
  by (auto simp: pcre_rangeEnd_def split: list.splits if_splits)

text \<open>
  The members of a character class up to its closing bracket, and the text after it.
  A member is a character or a range \<^verbatim>\<open>c-d\<close> with \<open>c\<close> not above \<open>d\<close>; a hyphen in
  any other place is a member itself.
\<close>

function pcre_classMembers :: "bool \<Rightarrow> string \<Rightarrow> ((char \<times> char) list \<times> string) option" where
  "pcre_classMembers first [] = None"
| "pcre_classMembers first (c # cs) =
     (if c = CHR '']'' \<and> \<not> first then Some ([], cs)
      else
        (case pcre_classLiteral first (c # cs) of
           None \<Rightarrow> None
         | Some (lo, s1) \<Rightarrow>
             (case pcre_rangeEnd s1 of
                Some s2 \<Rightarrow>
                  (case pcre_classLiteral False s2 of
                     None \<Rightarrow> None
                   | Some (hi, s3) \<Rightarrow>
                       if (of_char lo :: nat) \<le> of_char hi
                       then (case pcre_classMembers False s3 of
                               None \<Rightarrow> None
                             | Some (ranges, after) \<Rightarrow> Some ((lo, hi) # ranges, after))
                       else None)
              | None \<Rightarrow>
                  (case pcre_classMembers False s1 of
                     None \<Rightarrow> None
                   | Some (ranges, after) \<Rightarrow> Some ((lo, lo) # ranges, after)))))"
  by pat_completeness auto
termination
  by (relation "measure (\<lambda>(first, s). length s)")
    (auto dest!: pcre_classLiteral_length pcre_rangeEnd_length)

text \<open>
  PCRE2 refuses a class that begins like a POSIX class: \<^verbatim>\<open>[:\<close>, \<^verbatim>\<open>[.\<close> or \<^verbatim>\<open>[=\<close>
  with the same character before a closing bracket further on. \<open>pcre_posixSyntax t s\<close>
  looks in \<open>s\<close>, the text after the first \<open>t\<close>, for \<open>t\<close> before \<^verbatim>\<open>]\<close>; it gives up
  at a \<^verbatim>\<open>]\<close> and at \<^verbatim>\<open>[\<close> before \<open>t\<close>, and passes over a backslash with the
  backslash or \<^verbatim>\<open>]\<close> after it.
\<close>

fun pcre_posixSyntax :: "char \<Rightarrow> string \<Rightarrow> bool" where
  "pcre_posixSyntax t (a # b # rest) =
     (if a = backslash \<and> (b = CHR '']'' \<or> b = backslash) then pcre_posixSyntax t rest
      else if (a = CHR ''['' \<and> b = t) \<or> a = CHR '']'' then False
      else if a = t \<and> b = CHR '']'' then True
      else pcre_posixSyntax t (b # rest))"
| "pcre_posixSyntax t [a] = False"
| "pcre_posixSyntax t [] = False"

text \<open>
  A character class, read after its opening bracket: \<^verbatim>\<open>^\<close> first negates it, and a
  \<^verbatim>\<open>]\<close> that comes first is a member. A class that PCRE2 refuses as POSIX syntax is
  not interpreted.
\<close>

definition pcre_class :: "string \<Rightarrow> (Atom \<times> string) option" where
  "pcre_class s =
     (if s \<noteq> [] \<and> hd s \<in> set '':.='' \<and> pcre_posixSyntax (hd s) (tl s) then None
      else
        (let negated = (s \<noteq> [] \<and> hd s = CHR ''^'');
             s1 = (if negated then tl s else s)
         in case pcre_classMembers True s1 of
              None \<Rightarrow> None
            | Some (ranges, after) \<Rightarrow> Some (CharClass negated ranges, after)))"

lemma pcre_classMembers_length:
  "pcre_classMembers first s = Some (ranges, after) \<Longrightarrow> length after < length s"
proof (induction s arbitrary: first ranges after rule: length_induct)
  case (1 s)
  note IH = "1.IH" [rule_format]
  show ?case
  proof (cases s)
    case Nil
    with "1.prems" show ?thesis by simp
  next
    case (Cons c cs)
    show ?thesis
    proof (cases "c = CHR '']'' \<and> \<not> first")
      case True
      with "1.prems" Cons show ?thesis by auto
    next
      case False
      with "1.prems" Cons obtain lo s1 where lit: "pcre_classLiteral first s = Some (lo, s1)"
        by (auto split: option.splits)
      then have l1: "length s1 < length s" by (rule pcre_classLiteral_length)
      show ?thesis
      proof (cases "pcre_rangeEnd s1")
        case None
        with "1.prems" Cons False lit
        obtain rs where m: "pcre_classMembers False s1 = Some (rs, after)"
          by (auto split: option.splits)
        from IH [OF l1 m] l1 show ?thesis by simp
      next
        case (Some s2)
        then have l2: "length s2 < length s1" by (rule pcre_rangeEnd_length)
        from "1.prems" Cons False lit Some
        obtain hi s3 where lit2: "pcre_classLiteral False s2 = Some (hi, s3)"
          by (auto split: option.splits)
        then have l3: "length s3 < length s2" by (rule pcre_classLiteral_length)
        from "1.prems" Cons False lit Some lit2
        obtain rs where m: "pcre_classMembers False s3 = Some (rs, after)"
          by (auto split: option.splits if_splits)
        from l1 l2 l3 have "length s3 < length s" by simp
        from IH [OF this m] l1 l2 l3 show ?thesis by simp
      qed
    qed
  qed
qed

lemma pcre_class_length:
  assumes "pcre_class s = Some (atom, after)"
  shows "length after < length s"
proof -
  define s1 where "s1 = (if s \<noteq> [] \<and> hd s = CHR ''^'' then tl s else s)"
  have le: "length s1 \<le> length s" by (simp add: s1_def)
  from assms obtain ranges where "pcre_classMembers True s1 = Some (ranges, after)"
    unfolding pcre_class_def Let_def s1_def [symmetric]
    by (auto split: if_splits option.splits)
  then have "length after < length s1" by (rule pcre_classMembers_length)
  with le show ?thesis by simp
qed

text \<open>
  \<open>pcre_items\<close> reads items from the front of a pattern and returns them with the text
  it stopped at: an unescaped metacharacter, an escaped letter or digit, or a class
  that is not interpreted.
\<close>

function pcre_items :: "string \<Rightarrow> RegexItem list \<times> string" where
  "pcre_items [] = ([], [])"
| "pcre_items (c # cs) =
     (if c = CHR ''[''
      then (case pcre_class cs of
              None \<Rightarrow> ([], c # cs)
            | Some (atom, after) \<Rightarrow>
                if after \<noteq> [] \<and> hd after = CHR ''*''
                then (let (items, rest) = pcre_items (tl after) in (Many atom # items, rest))
                else (let (items, rest) = pcre_items after in (One atom # items, rest)))
      else if c = backslash
      then (case cs of
              [] \<Rightarrow> ([], c # cs)
            | e # cs' \<Rightarrow>
                if pcre_isAlnum e then ([], c # cs)
                else (let (items, rest) = pcre_items cs' in (One (Literal e) # items, rest)))
      else if pcre_isMeta c then ([], c # cs)
      else (let (items, rest) = pcre_items cs in (One (Literal c) # items, rest)))"
  by pat_completeness auto
termination
proof (relation "measure length", goal_cases)
  case (2 c cs p atom after)
  then have "length after < length cs" by (auto dest: pcre_class_length)
  then show ?case by (cases after) auto
next
  case (3 c cs p atom after)
  then have "length after < length cs" by (auto dest: pcre_class_length)
  then show ?case by simp
qed auto

text \<open>
  A pattern is \<^verbatim>\<open>\A(?:\<close>\<open>items\<close>\<^verbatim>\<open>)\z\<close>, or \<^verbatim>\<open>^\<close>\<open>items\<close>\<^verbatim>\<open>$\<close>, or \<open>items\<close> alone.
\<close>

definition pcre_compile :: "string \<Rightarrow> Regex option" where
  "pcre_compile p =
     (if prefix ([backslash, CHR ''A''] @ ''(?:'') p
      then (let (items, rest) = pcre_items (drop 5 p)
            in if rest = '')'' @ [backslash, CHR ''z''] then Some (AnchoredGroup items) else None)
      else if prefix ''^'' p
      then (let (items, rest) = pcre_items (drop 1 p)
            in if rest = ''$'' then Some (CaretDollar items) else None)
      else (let (items, rest) = pcre_items p
            in if rest = [] then Some (Unanchored items) else None))"

text \<open>
  An atom matches a character. With the case-insensitive option a literal matches
  either case of its letter, and a class has, with each member, the member's other
  case. The capital form of a small letter is 32 codes below it: of the letters
  \<^verbatim>\<open>a\<close> to \<^verbatim>\<open>z\<close> and of those from code 224 to code 254 (247 is the division
  sign). The micro sign, the sharp s and the y with diaeresis have no capital form
  below code 256.
\<close>

definition pcre_toUpperChar :: "char \<Rightarrow> char" where
  "pcre_toUpperChar c =
     (let n = (of_char c :: nat)
      in if (97 \<le> n \<and> n \<le> 122) \<or> (224 \<le> n \<and> n \<le> 254 \<and> n \<noteq> 247)
         then char_of (n - 32) else c)"

definition pcre_inRange :: "char \<times> char \<Rightarrow> char \<Rightarrow> bool" where
  "pcre_inRange r x \<longleftrightarrow> (of_char (fst r) :: nat) \<le> of_char x \<and> (of_char x :: nat) \<le> of_char (snd r)"

fun pcre_atomMatch :: "bool \<Rightarrow> Atom \<Rightarrow> char \<Rightarrow> bool" where
  "pcre_atomMatch ci (Literal c) x = (if ci then qt_toLowerChar x = qt_toLowerChar c else x = c)"
| "pcre_atomMatch ci (CharClass negated ranges) x =
     (negated \<noteq>
        list_ex (\<lambda>r. pcre_inRange r x
                   \<or> (ci \<and> (pcre_inRange r (qt_toLowerChar x) \<or> pcre_inRange r (pcre_toUpperChar x))))
          ranges)"

text \<open>The items match the whole of a string.\<close>

fun pcre_itemsMatch :: "bool \<Rightarrow> RegexItem list \<Rightarrow> string \<Rightarrow> bool" where
  "pcre_itemsMatch ci [] s = (s = [])"
| "pcre_itemsMatch ci (One atom # items) s =
     (case s of
        [] \<Rightarrow> False
      | x # xs \<Rightarrow> pcre_atomMatch ci atom x \<and> pcre_itemsMatch ci items xs)"
| "pcre_itemsMatch ci (Many atom # items) s =
     (pcre_itemsMatch ci items s
      \<or> (case s of
            [] \<Rightarrow> False
          | x # xs \<Rightarrow> pcre_atomMatch ci atom x \<and> pcre_itemsMatch ci (Many atom # items) xs))"

text \<open>
  \<^verbatim>\<open>match(s).hasMatch()\<close> searches for a match anywhere in \<open>s\<close>: the items alone match
  when they match a part of \<open>s\<close>. Between \<^verbatim>\<open>\A\<close> and \<^verbatim>\<open>\z\<close> a match is the whole
  of \<open>s\<close>. A \<^verbatim>\<open>$\<close> also matches before a newline that ends \<open>s\<close>.
\<close>

definition pcre_hasMatch :: "bool \<Rightarrow> Regex \<Rightarrow> string \<Rightarrow> bool" where
  "pcre_hasMatch ci re s =
     (case re of
        AnchoredGroup items \<Rightarrow> pcre_itemsMatch ci items s
      | CaretDollar items \<Rightarrow>
          pcre_itemsMatch ci items s
          \<or> (s \<noteq> [] \<and> last s = CHR 0x0A \<and> pcre_itemsMatch ci items (butlast s))
      | Unanchored items \<Rightarrow>
          list_ex (\<lambda>t. list_ex (pcre_itemsMatch ci items) (prefixes t)) (suffixes s))"

text \<open>
  The model: \<open>otherValid\<close> and \<open>otherMatch\<close> decide the patterns that are not
  interpreted.
\<close>

definition Qt :: "(QRegularExpression \<Rightarrow> bool) \<Rightarrow> (QRegularExpression \<Rightarrow> string \<Rightarrow> bool) \<Rightarrow> QtApi" where
  "Qt otherValid otherMatch =
     \<lparr> toLower = qt_toLower,
       trimmed = qt_trimmed,
       wildcardToRegularExpression = qt_wildcardToRegularExpression,
       escape = qt_escape,
       isValid = (\<lambda>re. case pcre_compile (rx_pattern re) of
                          None \<Rightarrow> otherValid re
                        | Some _ \<Rightarrow> True),
       hasMatch = (\<lambda>re s. case pcre_compile (rx_pattern re) of
                             None \<Rightarrow> otherMatch re s
                           | Some c \<Rightarrow> pcre_hasMatch (rx_options re = CaseInsensitiveOption) c s) \<rparr>"

section \<open>Specification-level definitions\<close>

text \<open>
  The exact match that the specification asks of a whitelist entry without wildcard
  characters: the name is the entry, without regard to the case of letters.
\<close>

definition exactMatch :: "string \<Rightarrow> string \<Rightarrow> bool" where
  "exactMatch entry name \<longleftrightarrow> qt_toLower name = qt_toLower entry"
















text \<open>
  Two filter states that differ at most in the whitelist: the enabled flag, the
  pattern list and the matchers compiled from it.
\<close>

definition sameExceptWhitelist :: "KFileItemModelFilter \<Rightarrow> KFileItemModelFilter \<Rightarrow> bool" where
  "sameExceptWhitelist f g \<longleftrightarrow>
     m_useRegExp f = m_useRegExp g \<and> m_regExp f = m_regExp g
     \<and> m_lowerCasePattern f = m_lowerCasePattern g \<and> m_pattern f = m_pattern g
     \<and> m_mimeTypes f = m_mimeTypes g \<and> m_excludeMimeTypes f = m_excludeMimeTypes g
     \<and> m_hiddenFilesShown f = m_hiddenFilesShown g"

text \<open>
  The invariant of the filter states: the lower-case pattern and the mode follow from
  \<^verbatim>\<open>m_pattern\<close>, the matcher in use is the case-insensitive conversion of it, and the
  whitelist matchers are what the loop compiles from \<^verbatim>\<open>m_hiddenWhitelist\<close>.
\<close>

definition filterInv :: "QtApi \<Rightarrow> KFileItemModelFilter \<Rightarrow> bool" where
  "filterInv q f \<longleftrightarrow>
     (m_lowerCasePattern f = toLower q (m_pattern f)
      \<or> m_pattern f = [] \<and> m_lowerCasePattern f = [])
     \<and> m_useRegExp f =
         (containsWildcard (m_pattern f)
          \<and> isValid q \<lparr> rx_pattern = wildcardToRegularExpression q (m_pattern f),
                         rx_options = CaseInsensitiveOption \<rparr>)
     \<and> (m_useRegExp f \<longrightarrow>
          m_regExp f = Some \<lparr> rx_pattern = wildcardToRegularExpression q (m_pattern f),
                               rx_options = CaseInsensitiveOption \<rparr>)
     \<and> (\<forall>r. m_regExp f = Some r \<longrightarrow> rx_options r = CaseInsensitiveOption)
     \<and> m_hiddenWhitelistRegExps f = whitelistLoop q (m_hiddenWhitelist f) []"

section \<open>Example states and items\<close>

text \<open>
  The Qt model in which no uninterpreted pattern is valid, two items and two filter
  states, for the concrete instances of the theorems below.
\<close>

definition qtExample :: QtApi where
  "qtExample = Qt (\<lambda>_. False) (\<lambda>_ _. False)"

definition dotGit :: KFileItem where
  "dotGit = \<lparr> itemText = ''.git'', isHidden = True, mimetype = ''inode/directory'' \<rparr>"

definition dotGitNewline :: KFileItem where
  "dotGitNewline =
     \<lparr> itemText = ''.git'' @ [CHR 0x0A], isHidden = True, mimetype = ''inode/directory'' \<rparr>"

definition notesTxt :: KFileItem where
  "notesTxt = \<lparr> itemText = ''notes.txt'', isHidden = False, mimetype = ''text/plain'' \<rparr>"

definition hidingFilter :: KFileItemModelFilter where
  "hidingFilter = setHiddenFilesShown False newFilter"

definition whitelistingFilter :: KFileItemModelFilter where
  "whitelistingFilter =
     setHiddenFilesWhitelistEnabled True
       (setHiddenFilesWhitelist qtExample [''.git''] (setHiddenFilesShown False newFilter))"

definition foobarTxt :: KFileItem where
  "foobarTxt = \<lparr> itemText = ''Foobar.txt'', isHidden = False, mimetype = ''text/plain'' \<rparr>"

definition picturePng :: KFileItem where
  "picturePng = \<lparr> itemText = ''Picture.png'', isHidden = False, mimetype = ''image/png'' \<rparr>"

definition notesPdf :: KFileItem where
  "notesPdf = \<lparr> itemText = ''notes.pdf'', isHidden = False, mimetype = ''application/pdf'' \<rparr>"



definition nameAndTypeFilter :: KFileItemModelFilter where
  "nameAndTypeFilter = setMimeTypes [''text/plain''] (setPattern qtExample ''foo'' newFilter)"

definition exampleWhitelist :: "string list" where
  "exampleWhitelist = ['' .git '', ''  '', ''.c*'', ''['', ''x'']"

section \<open>Lemmas\<close>

lemma contains_iff: "contains hay needle \<longleftrightarrow> (\<exists>ps ss. hay = ps @ needle @ ss)"
proof (induction hay)
  case Nil
  then show ?case by auto
next
  case (Cons c cs)
  show ?case
  proof
    assume "contains (c # cs) needle"
    then consider "prefix needle (c # cs)" | "contains cs needle" by auto
    then show "\<exists>ps ss. c # cs = ps @ needle @ ss"
    proof cases
      case 1
      then obtain ss where "c # cs = needle @ ss" by (auto simp: prefix_def)
      then have "c # cs = [] @ needle @ ss" by simp
      then show ?thesis by blast
    next
      case 2
      with Cons.IH obtain ps ss where "cs = ps @ needle @ ss" by blast
      then have "c # cs = (c # ps) @ needle @ ss" by simp
      then show ?thesis by blast
    qed
  next
    assume "\<exists>ps ss. c # cs = ps @ needle @ ss"
    then obtain ps ss where eq: "c # cs = ps @ needle @ ss" by blast
    show "contains (c # cs) needle"
    proof (cases ps)
      case Nil
      with eq have "prefix needle (c # cs)" by (simp add: prefix_def)
      then show ?thesis by simp
    next
      case (Cons p ps')
      with eq have "cs = ps' @ needle @ ss" by simp
      with Cons.IH have "contains cs needle" by blast
      then show ?thesis by simp
    qed
  qed
qed

lemma anyRegExpMatches_iff:
  "anyRegExpMatches q regExps name \<longleftrightarrow> (\<exists>r \<in> set regExps. hasMatch q r name)"
  by (induction regExps) auto

lemma setHiddenFilesWhitelist_regExps:
  "m_hiddenWhitelistRegExps (setHiddenFilesWhitelist q patterns f) = whitelistLoop q patterns []"
  by (simp add: setHiddenFilesWhitelist_def updateHiddenWhitelistRegExps_def Let_def)

lemma filterInv_new: "filterInv q newFilter"
  by (simp add: filterInv_def newFilter_def containsWildcard_def)

lemma setPattern_regExp:
  "rx_options r = CaseInsensitiveOption \<Longrightarrow>
     r\<lparr> rx_pattern := p \<rparr> = \<lparr> rx_pattern = p, rx_options = CaseInsensitiveOption \<rparr>"
  by (cases r) simp

lemma filterInv_setPattern:
  assumes "filterInv q f"
  shows "filterInv q (setPattern q raw f)"
proof (cases "m_regExp f")
  case None
  with assms show ?thesis
    by (simp add: filterInv_def setPattern_def Let_def)
next
  case (Some r)
  with assms have ci: "rx_options r = CaseInsensitiveOption"
    by (simp add: filterInv_def)
  with assms Some show ?thesis
    by (simp add: filterInv_def setPattern_def Let_def setPattern_regExp)
qed

lemma filterInv_setHiddenFilesWhitelist:
  assumes "filterInv q f"
  shows "filterInv q (setHiddenFilesWhitelist q patterns f)"
proof -
  have others: "sameExceptWhitelist (setHiddenFilesWhitelist q patterns f) f"
    and wl: "m_hiddenWhitelist (setHiddenFilesWhitelist q patterns f) = patterns"
    by (simp_all add: sameExceptWhitelist_def setHiddenFilesWhitelist_def
        updateHiddenWhitelistRegExps_def Let_def)
  from assms others wl setHiddenFilesWhitelist_regExps [of q patterns f] show ?thesis
    by (simp add: filterInv_def sameExceptWhitelist_def)
qed

lemma reachable_filterInv: "reachable q f \<Longrightarrow> filterInv q f"
proof (induction rule: reachable.induct)
  case r_new
  show ?case by (rule filterInv_new)
next
  case (r_setPattern f raw)
  then show ?case by (simp add: filterInv_setPattern)
next
  case (r_setHiddenFilesWhitelist f patterns)
  then show ?case by (simp add: filterInv_setHiddenFilesWhitelist)
qed (simp_all add: filterInv_def setMimeTypes_def setExcludeMimeTypes_def
      setHiddenFilesShown_def setHiddenFilesWhitelistEnabled_def)




lemma reachable_matchesPattern_Some:
  assumes "reachable q f"
  shows "\<exists>b. matchesPattern q f item = Some b"
proof -
  from assms have "filterInv q f" by (rule reachable_filterInv)
  then have "m_useRegExp f \<longrightarrow> m_regExp f \<noteq> None" by (auto simp: filterInv_def)
  then show ?thesis by (auto simp: matchesPattern_def split: option.splits)
qed

lemma example_foo:
  "matchesPattern (Qt v m) (setPattern (Qt v m) ''foo'' newFilter) foobarTxt = Some True"
  by code_simp

lemma example_txt:
  "matchesPattern (Qt v m) (setPattern (Qt v m) ''*.txt'' newFilter) notesTxt = Some True"
  by code_simp

lemma example_pdf:
  "matchesPattern (Qt v m) (setPattern (Qt v m) ''*.txt'' newFilter) notesPdf = Some False"
  by code_simp




lemma qt_classText_nonempty: "qt_classText m @ c # X \<noteq> []"
  by simp




























lemma qt_escape_items:
  assumes "CHR 0x00 \<notin> set t"
  shows "pcre_items (qt_escape t @ ''$'') = (map (\<lambda>c. One (Literal c)) t, ''$'')"
  using assms
proof (induction t)
  case Nil
  show ?case by (simp add: pcre_isMeta_def)
next
  case (Cons c t)
  then have IH: "pcre_items (qt_escape t @ ''$'') = (map (\<lambda>c. One (Literal c)) t, ''$'')"
    and c: "c \<noteq> CHR 0x00"
    by auto
  show ?case
  proof (cases "qt_isWordChar c")
    case True
    then have "c \<noteq> CHR ''[''" "c \<noteq> backslash" "\<not> pcre_isMeta c"
      by (auto simp: qt_isWordChar_def pcre_isMeta_def)
    with True c IH show ?thesis by simp
  next
    case False
    then have "\<not> pcre_isAlnum c" by (auto simp: qt_isWordChar_def pcre_isAlnum_def)
    with False c IH show ?thesis by simp
  qed
qed

lemma literal_items_match:
  "pcre_itemsMatch True (map (\<lambda>c. One (Literal c)) t) s \<longleftrightarrow> qt_toLower s = qt_toLower t"
proof (induction t arbitrary: s)
  case Nil
  show ?case by (simp add: qt_toLower_def)
next
  case (Cons c t)
  then show ?case by (cases s) (auto simp: qt_toLower_def)
qed

lemma literal_entry_matcher:
  assumes "CHR 0x00 \<notin> set t"
  shows "isValid (Qt v m) \<lparr> rx_pattern = ''^'' @ escape (Qt v m) t @ ''$'',
                             rx_options = CaseInsensitiveOption \<rparr>"
    and "hasMatch (Qt v m) \<lparr> rx_pattern = ''^'' @ escape (Qt v m) t @ ''$'',
                             rx_options = CaseInsensitiveOption \<rparr> s
          \<longleftrightarrow> exactMatch t s
              \<or> (s \<noteq> [] \<and> last s = CHR 0x0A \<and> exactMatch t (butlast s))"
proof -
  have "pcre_compile (''^'' @ qt_escape t @ ''$'')
      = Some (CaretDollar (map (\<lambda>c. One (Literal c)) t))"
    using qt_escape_items [OF assms]
    by (simp add: pcre_compile_def del: pcre_items.simps)
  then show "isValid (Qt v m) \<lparr> rx_pattern = ''^'' @ escape (Qt v m) t @ ''$'',
                             rx_options = CaseInsensitiveOption \<rparr>"
    and "hasMatch (Qt v m) \<lparr> rx_pattern = ''^'' @ escape (Qt v m) t @ ''$'',
                             rx_options = CaseInsensitiveOption \<rparr> s
          \<longleftrightarrow> exactMatch t s
              \<or> (s \<noteq> [] \<and> last s = CHR 0x0A \<and> exactMatch t (butlast s))"
    by (simp_all add: Qt_def pcre_hasMatch_def literal_items_match exactMatch_def)
qed

section \<open>The claims\<close>

text \<open>
  Claim C1 (hidden-file gate). For a hidden item, while hidden files are not shown,
  \<^verbatim>\<open>matches\<close> returns false at once unless the whitelist is enabled and one of the
  compiled whitelist matchers matches the item's name. In that case, and for every
  item that is not hidden, and whenever hidden files are shown, the result is that of
  the pattern and MIME-type step.
\<close>

theorem hidden_file_gate:
  "(isHidden item \<and> \<not> hiddenFilesShown f
      \<and> \<not> (hiddenFilesWhitelistEnabled f
             \<and> (\<exists>r \<in> set (m_hiddenWhitelistRegExps f). hasMatch q r (itemText item)))
     \<longrightarrow> matches q f item = Some False)
   \<and> (isHidden item \<and> \<not> hiddenFilesShown f \<and> hiddenFilesWhitelistEnabled f
       \<and> (\<exists>r \<in> set (m_hiddenWhitelistRegExps f). hasMatch q r (itemText item))
      \<longrightarrow> matches q f item = matchesFilters q f item)
   \<and> (\<not> isHidden item \<or> hiddenFilesShown f
      \<longrightarrow> matches q f item = matchesFilters q f item)"
  by (auto simp: matches_def matchesHiddenWhitelist_def anyRegExpMatches_iff
      hiddenFilesShown_def hiddenFilesWhitelistEnabled_def)

theorem hidden_file_gate_witness:
  "matches qtExample hidingFilter dotGit = Some False
   \<and> matches qtExample whitelistingFilter dotGit = Some True
   \<and> matches qtExample hidingFilter notesTxt = Some True"
proof -
  have h1: "isHidden dotGit \<and> \<not> hiddenFilesShown hidingFilter
      \<and> \<not> (hiddenFilesWhitelistEnabled hidingFilter
             \<and> (\<exists>r \<in> set (m_hiddenWhitelistRegExps hidingFilter).
                   hasMatch qtExample r (itemText dotGit)))"
    by code_simp
  have h2: "isHidden dotGit \<and> \<not> hiddenFilesShown whitelistingFilter
      \<and> hiddenFilesWhitelistEnabled whitelistingFilter
      \<and> (\<exists>r \<in> set (m_hiddenWhitelistRegExps whitelistingFilter).
            hasMatch qtExample r (itemText dotGit))"
    by code_simp
  have h3: "\<not> isHidden notesTxt \<or> hiddenFilesShown hidingFilter"
    by code_simp
  have v2: "matchesFilters qtExample whitelistingFilter dotGit = Some True"
    by code_simp
  have v3: "matchesFilters qtExample hidingFilter notesTxt = Some True"
    by code_simp
  from h1 hidden_file_gate [where item = dotGit and f = hidingFilter and q = qtExample]
  have c1: "matches qtExample hidingFilter dotGit = Some False" by blast
  from h2 v2 hidden_file_gate [where item = dotGit and f = whitelistingFilter and q = qtExample]
  have c2: "matches qtExample whitelistingFilter dotGit = Some True" by simp
  from h3 v3 hidden_file_gate [where item = notesTxt and f = hidingFilter and q = qtExample]
  have c3: "matches qtExample hidingFilter notesTxt = Some True" by simp
  from c1 c2 c3 show ?thesis by simp
qed

text \<open>
  Claim C2 (filter combination). For an item that passes the hidden-file gate, with a
  name filter when the pattern is not empty and a MIME filter when the include or the
  exclude list is not empty: with neither, \<^verbatim>\<open>matches\<close> returns true; with both, the
  conjunction of \<^verbatim>\<open>matchesPattern\<close> and \<^verbatim>\<open>matchesType\<close>; with one, that one. In a
  reachable state \<^verbatim>\<open>matchesPattern\<close> never dereferences a null pointer, so the result
  is a boolean. With an empty pattern, empty MIME lists and hidden files shown,
  \<^verbatim>\<open>matches\<close> returns true for every item.
\<close>

theorem filter_combination:
  "((\<not> hiddenFilesShown f \<and> isHidden item \<longrightarrow>
        hiddenFilesWhitelistEnabled f
        \<and> (\<exists>r \<in> set (m_hiddenWhitelistRegExps f). hasMatch q r (itemText item)))
     \<longrightarrow> matches q f item =
         (if pattern f = [] \<and> mimeTypes f = [] \<and> excludeMimeTypes f = [] then Some True
          else if pattern f \<noteq> [] \<and> (mimeTypes f \<noteq> [] \<or> excludeMimeTypes f \<noteq> [])
          then (case matchesPattern q f item of
                  None \<Rightarrow> None
                | Some b \<Rightarrow> Some (b \<and> matchesType f item))
          else if pattern f \<noteq> [] then matchesPattern q f item
          else Some (matchesType f item)))
   \<and> (reachable q f \<longrightarrow> (\<exists>b. matchesPattern q f item = Some b))
   \<and> (pattern f = [] \<and> mimeTypes f = [] \<and> excludeMimeTypes f = [] \<and> hiddenFilesShown f
      \<longrightarrow> matches q f item = Some True)"
proof (intro conjI impI)
  assume gate: "\<not> hiddenFilesShown f \<and> isHidden item \<longrightarrow>
        hiddenFilesWhitelistEnabled f
        \<and> (\<exists>r \<in> set (m_hiddenWhitelistRegExps f). hasMatch q r (itemText item))"
  then have "matches q f item = matchesFilters q f item"
    by (auto simp: matches_def matchesHiddenWhitelist_def anyRegExpMatches_iff
        hiddenFilesShown_def hiddenFilesWhitelistEnabled_def)
  then show "matches q f item =
         (if pattern f = [] \<and> mimeTypes f = [] \<and> excludeMimeTypes f = [] then Some True
          else if pattern f \<noteq> [] \<and> (mimeTypes f \<noteq> [] \<or> excludeMimeTypes f \<noteq> [])
          then (case matchesPattern q f item of
                  None \<Rightarrow> None
                | Some b \<Rightarrow> Some (b \<and> matchesType f item))
          else if pattern f \<noteq> [] then matchesPattern q f item
          else Some (matchesType f item))"
    by (simp add: matchesFilters_def pattern_def mimeTypes_def excludeMimeTypes_def)
next
  assume "reachable q f"
  then show "\<exists>b. matchesPattern q f item = Some b" by (rule reachable_matchesPattern_Some)
next
  assume "pattern f = [] \<and> mimeTypes f = [] \<and> excludeMimeTypes f = [] \<and> hiddenFilesShown f"
  then show "matches q f item = Some True"
    by (simp add: matches_def matchesFilters_def pattern_def mimeTypes_def excludeMimeTypes_def
        hiddenFilesShown_def)
qed

theorem filter_combination_witness:
  "reachable qtExample nameAndTypeFilter
   \<and> pattern nameAndTypeFilter = ''foo'' \<and> mimeTypes nameAndTypeFilter = [''text/plain'']
   \<and> matchesPattern qtExample nameAndTypeFilter foobarTxt = Some True
   \<and> matchesType nameAndTypeFilter foobarTxt
   \<and> matches qtExample nameAndTypeFilter foobarTxt = Some True
   \<and> matches qtExample newFilter dotGit = Some True"
proof -
  have r: "reachable qtExample nameAndTypeFilter"
    unfolding nameAndTypeFilter_def by (intro reachable.intros)
  have gate: "\<not> hiddenFilesShown nameAndTypeFilter \<and> isHidden foobarTxt \<longrightarrow>
        hiddenFilesWhitelistEnabled nameAndTypeFilter
        \<and> (\<exists>r \<in> set (m_hiddenWhitelistRegExps nameAndTypeFilter).
              hasMatch qtExample r (itemText foobarTxt))"
    by code_simp
  have fields: "pattern nameAndTypeFilter = ''foo''" "mimeTypes nameAndTypeFilter = [''text/plain'']"
    by code_simp+
  have p: "matchesPattern qtExample nameAndTypeFilter foobarTxt = Some True" by code_simp
  have t: "matchesType nameAndTypeFilter foobarTxt" by code_simp
  from gate fields p t
    filter_combination [where q = qtExample and f = nameAndTypeFilter and item = foobarTxt]
  have both: "matches qtExample nameAndTypeFilter foobarTxt = Some True" by simp
  have none: "pattern newFilter = [] \<and> mimeTypes newFilter = [] \<and> excludeMimeTypes newFilter = []
      \<and> hiddenFilesShown newFilter"
    by code_simp
  from none filter_combination [where q = qtExample and f = newFilter and item = dotGit]
  have all: "matches qtExample newFilter dotGit = Some True" by blast
  from r fields p t both all show ?thesis by simp
qed

text \<open>
  Claim C3 (MIME-type predicate). If the item's MIME type equals an entry of the
  exclude list, \<^verbatim>\<open>matchesType\<close> returns false, also when the include list has the
  type too; otherwise, if it equals an entry of the include list, true; otherwise true
  exactly when the include list is empty. The comparison is equality of strings.
\<close>

theorem mime_type_predicate:
  "(mimetype item \<in> set (excludeMimeTypes f) \<longrightarrow> matchesType f item = False)
   \<and> (mimetype item \<notin> set (excludeMimeTypes f) \<and> mimetype item \<in> set (mimeTypes f)
      \<longrightarrow> matchesType f item = True)
   \<and> (mimetype item \<notin> set (excludeMimeTypes f) \<and> mimetype item \<notin> set (mimeTypes f)
      \<longrightarrow> matchesType f item = (mimeTypes f = []))"
  by (auto simp: matchesType_def excludeMimeTypes_def mimeTypes_def list_ex_iff)

theorem mime_type_predicate_witness:
  "matchesType (setExcludeMimeTypes [''text/plain''] (setMimeTypes [''text/plain''] newFilter))
       foobarTxt = False
   \<and> matchesType (setMimeTypes [''text/plain''] newFilter) foobarTxt = True
   \<and> matchesType (setMimeTypes [''text/plain''] newFilter) picturePng = False
   \<and> matchesType (setExcludeMimeTypes [''Text/Plain''] newFilter) foobarTxt = True"
proof -
  let ?both = "setExcludeMimeTypes [''text/plain''] (setMimeTypes [''text/plain''] newFilter)"
  let ?incl = "setMimeTypes [''text/plain''] newFilter"
  let ?excl = "setExcludeMimeTypes [''Text/Plain''] newFilter"
  have h1: "mimetype foobarTxt \<in> set (excludeMimeTypes ?both)" by code_simp
  have h2: "mimetype foobarTxt \<notin> set (excludeMimeTypes ?incl)
      \<and> mimetype foobarTxt \<in> set (mimeTypes ?incl)" by code_simp
  have h3: "mimetype picturePng \<notin> set (excludeMimeTypes ?incl)
      \<and> mimetype picturePng \<notin> set (mimeTypes ?incl)" by code_simp
  have e3: "mimeTypes ?incl \<noteq> []" by code_simp
  have h4: "mimetype foobarTxt \<notin> set (excludeMimeTypes ?excl)
      \<and> mimetype foobarTxt \<notin> set (mimeTypes ?excl)" by code_simp
  have e4: "mimeTypes ?excl = []" by code_simp
  from h1 mime_type_predicate [where f = ?both and item = foobarTxt]
  have c1: "matchesType ?both foobarTxt = False" by blast
  from h2 mime_type_predicate [where f = ?incl and item = foobarTxt]
  have c2: "matchesType ?incl foobarTxt = True" by blast
  from h3 e3 mime_type_predicate [where f = ?incl and item = picturePng]
  have c3: "matchesType ?incl picturePng = False" by blast
  from h4 e4 mime_type_predicate [where f = ?excl and item = foobarTxt]
  have c4: "matchesType ?excl foobarTxt = True" by blast
  from c1 c2 c3 c4 show ?thesis by blast
qed

text \<open>
  Claim C4 (name-pattern predicate). In wildcard mode \<^verbatim>\<open>matchesPattern\<close> returns
  whether the compiled matcher matches the item's name; in a reachable state that
  matcher is the case-insensitive conversion of the pattern. In substring mode it
  returns whether the lower-case name contains the lower-case pattern. In the Qt
  model, the pattern \<^verbatim>\<open>foo\<close> matches the name \<^verbatim>\<open>Foobar.txt\<close>, and \<^verbatim>\<open>*.txt\<close> matches
  \<^verbatim>\<open>notes.txt\<close> and not \<^verbatim>\<open>notes.pdf\<close>.
\<close>

theorem name_pattern_predicate:
  "(m_useRegExp f \<longrightarrow>
      (\<forall>regExp. m_regExp f = Some regExp \<longrightarrow>
         matchesPattern q f item = Some (hasMatch q regExp (itemText item))))
   \<and> (\<not> m_useRegExp f \<longrightarrow>
        matchesPattern q f item
          = Some (\<exists>ps ss. toLower q (itemText item) = ps @ m_lowerCasePattern f @ ss))
   \<and> (reachable q f \<and> m_useRegExp f \<longrightarrow>
        matchesPattern q f item
          = Some (hasMatch q \<lparr> rx_pattern = wildcardToRegularExpression q (pattern f),
                               rx_options = CaseInsensitiveOption \<rparr> (itemText item)))
   \<and> (reachable q f \<and> \<not> m_useRegExp f \<and> pattern f \<noteq> [] \<longrightarrow>
        matchesPattern q f item
          = Some (\<exists>ps ss. toLower q (itemText item) = ps @ toLower q (pattern f) @ ss))
   \<and> matchesPattern (Qt v m) (setPattern (Qt v m) ''foo'' newFilter) foobarTxt = Some True
   \<and> matchesPattern (Qt v m) (setPattern (Qt v m) ''*.txt'' newFilter) notesTxt = Some True
   \<and> matchesPattern (Qt v m) (setPattern (Qt v m) ''*.txt'' newFilter) notesPdf = Some False"
proof -
  have a: "m_useRegExp f \<longrightarrow>
      (\<forall>regExp. m_regExp f = Some regExp \<longrightarrow>
         matchesPattern q f item = Some (hasMatch q regExp (itemText item)))"
    by (simp add: matchesPattern_def)
  have b: "\<not> m_useRegExp f \<longrightarrow>
        matchesPattern q f item
          = Some (\<exists>ps ss. toLower q (itemText item) = ps @ m_lowerCasePattern f @ ss)"
    by (simp add: matchesPattern_def contains_iff)
  have c: "matchesPattern q f item
          = Some (hasMatch q \<lparr> rx_pattern = wildcardToRegularExpression q (pattern f),
                               rx_options = CaseInsensitiveOption \<rparr> (itemText item))"
    if "reachable q f" "m_useRegExp f"
  proof -
    from that(1) have "filterInv q f" by (rule reachable_filterInv)
    with that(2) have "m_regExp f = Some \<lparr> rx_pattern = wildcardToRegularExpression q (pattern f),
        rx_options = CaseInsensitiveOption \<rparr>"
      by (simp add: filterInv_def pattern_def)
    with that(2) show ?thesis by (simp add: matchesPattern_def)
  qed
  have d: "matchesPattern q f item
          = Some (\<exists>ps ss. toLower q (itemText item) = ps @ toLower q (pattern f) @ ss)"
    if "reachable q f" "\<not> m_useRegExp f" "pattern f \<noteq> []"
  proof -
    from that(1) have "filterInv q f" by (rule reachable_filterInv)
    with that(3) have "m_lowerCasePattern f = toLower q (pattern f)"
      by (auto simp: filterInv_def pattern_def)
    with that(2) b show ?thesis by simp
  qed
  from a b c d example_foo example_txt example_pdf show ?thesis by blast
qed

theorem name_pattern_predicate_witness:
  "reachable qtExample (setPattern qtExample ''*.txt'' newFilter)
   \<and> m_useRegExp (setPattern qtExample ''*.txt'' newFilter)
   \<and> matchesPattern qtExample (setPattern qtExample ''*.txt'' newFilter) notesTxt = Some True
   \<and> matchesPattern qtExample (setPattern qtExample ''*.txt'' newFilter) notesPdf = Some False
   \<and> reachable qtExample (setPattern qtExample ''foo'' newFilter)
   \<and> \<not> m_useRegExp (setPattern qtExample ''foo'' newFilter)
   \<and> pattern (setPattern qtExample ''foo'' newFilter) \<noteq> []
   \<and> matchesPattern qtExample (setPattern qtExample ''foo'' newFilter) foobarTxt = Some True
   \<and> matchesPattern qtExample (setPattern qtExample ''foo'' newFilter) notesTxt = Some False"
proof -
  let ?star = "setPattern qtExample ''*.txt'' newFilter"
  let ?foo = "setPattern qtExample ''foo'' newFilter"
  let ?re = "\<lparr> rx_pattern = wildcardToRegularExpression qtExample (pattern ?star),
                rx_options = CaseInsensitiveOption \<rparr>"
  have r1: "reachable qtExample ?star" and r2: "reachable qtExample ?foo"
    by (intro reachable.intros)+
  have u1: "m_useRegExp ?star" and u2: "\<not> m_useRegExp ?foo" and p2: "pattern ?foo \<noteq> []"
    by code_simp+
  have m1: "hasMatch qtExample ?re (itemText notesTxt)"
    and m2: "\<not> hasMatch qtExample ?re (itemText notesPdf)"
    by code_simp+
  have "toLower qtExample (itemText foobarTxt) = [] @ toLower qtExample (pattern ?foo) @ ''bar.txt''"
    by code_simp
  then have s1: "\<exists>ps ss. toLower qtExample (itemText foobarTxt)
      = ps @ toLower qtExample (pattern ?foo) @ ss"
    by blast
  have "\<not> contains (toLower qtExample (itemText notesTxt)) (toLower qtExample (pattern ?foo))"
    by code_simp
  then have s2: "\<not> (\<exists>ps ss. toLower qtExample (itemText notesTxt)
      = ps @ toLower qtExample (pattern ?foo) @ ss)"
    by (simp add: contains_iff)
  from r1 u1 m1
    name_pattern_predicate [where q = qtExample and f = ?star and item = notesTxt
      and v = "\<lambda>_. False" and m = "\<lambda>_ _. False"]
  have c1: "matchesPattern qtExample ?star notesTxt = Some True" by simp
  from r1 u1 m2
    name_pattern_predicate [where q = qtExample and f = ?star and item = notesPdf
      and v = "\<lambda>_. False" and m = "\<lambda>_ _. False"]
  have c2: "matchesPattern qtExample ?star notesPdf = Some False" by simp
  from r2 u2 p2
    name_pattern_predicate [where q = qtExample and f = ?foo and item = foobarTxt
      and v = "\<lambda>_. False" and m = "\<lambda>_ _. False"]
  have "matchesPattern qtExample ?foo foobarTxt
      = Some (\<exists>ps ss. toLower qtExample (itemText foobarTxt)
                = ps @ toLower qtExample (pattern ?foo) @ ss)"
    by blast
  with s1 have c3: "matchesPattern qtExample ?foo foobarTxt = Some True" by simp
  from r2 u2 p2
    name_pattern_predicate [where q = qtExample and f = ?foo and item = notesTxt
      and v = "\<lambda>_. False" and m = "\<lambda>_ _. False"]
  have "matchesPattern qtExample ?foo notesTxt
      = Some (\<exists>ps ss. toLower qtExample (itemText notesTxt)
                = ps @ toLower qtExample (pattern ?foo) @ ss)"
    by blast
  with s2 have c4: "matchesPattern qtExample ?foo notesTxt = Some False" by simp
  from r1 r2 u1 u2 p2 c1 c2 c3 c4 show ?thesis by simp
qed

text \<open>
  Claim C5 (pattern mode). After \<^verbatim>\<open>setPattern(raw)\<close> the stored pattern is \<open>raw\<close> and
  the stored lower-case pattern is its lower-case form; wildcard mode is on exactly
  when \<open>raw\<close> contains \<^verbatim>\<open>*\<close>, \<^verbatim>\<open>?\<close> or \<^verbatim>\<open>[\<close> and its conversion is a valid
  case-insensitive matcher, which is then the matcher used; otherwise the filter
  looks for the lower-case \<open>raw\<close> inside the lower-case name. The relation between
  mode and pattern holds in every reachable state.
\<close>

theorem pattern_mode_invariant:
  assumes "reachable q f"
  shows "pattern (setPattern q raw f) = raw
    \<and> m_lowerCasePattern (setPattern q raw f) = toLower q raw
    \<and> (m_useRegExp (setPattern q raw f) \<longleftrightarrow>
         (CHR ''*'' \<in> set raw \<or> CHR ''?'' \<in> set raw \<or> CHR ''['' \<in> set raw)
         \<and> isValid q \<lparr> rx_pattern = wildcardToRegularExpression q raw,
                        rx_options = CaseInsensitiveOption \<rparr>)
    \<and> (m_useRegExp (setPattern q raw f) \<longrightarrow>
         matchesPattern q (setPattern q raw f) item
           = Some (hasMatch q \<lparr> rx_pattern = wildcardToRegularExpression q raw,
                                rx_options = CaseInsensitiveOption \<rparr> (itemText item)))
    \<and> (\<not> m_useRegExp (setPattern q raw f) \<longrightarrow>
         matchesPattern q (setPattern q raw f) item
           = Some (\<exists>ps ss. toLower q (itemText item) = ps @ toLower q raw @ ss))
    \<and> (m_useRegExp f \<longleftrightarrow>
         (CHR ''*'' \<in> set (pattern f) \<or> CHR ''?'' \<in> set (pattern f) \<or> CHR ''['' \<in> set (pattern f))
         \<and> isValid q \<lparr> rx_pattern = wildcardToRegularExpression q (pattern f),
                        rx_options = CaseInsensitiveOption \<rparr>)"
proof -
  let ?g = "setPattern q raw f"
  from assms have invf: "filterInv q f" by (rule reachable_filterInv)
  then have inv: "filterInv q ?g" by (rule filterInv_setPattern)
  have p: "m_pattern ?g = raw" and l: "m_lowerCasePattern ?g = toLower q raw"
    by (simp_all add: setPattern_def Let_def)
  from inv p have mode: "m_useRegExp ?g \<longleftrightarrow>
      containsWildcard raw
      \<and> isValid q \<lparr> rx_pattern = wildcardToRegularExpression q raw,
                     rx_options = CaseInsensitiveOption \<rparr>"
    by (simp add: filterInv_def)
  from inv p have re: "m_useRegExp ?g \<longrightarrow>
      m_regExp ?g = Some \<lparr> rx_pattern = wildcardToRegularExpression q raw,
                            rx_options = CaseInsensitiveOption \<rparr>"
    by (simp add: filterInv_def)
  have wild: "m_useRegExp ?g \<longrightarrow>
         matchesPattern q ?g item
           = Some (hasMatch q \<lparr> rx_pattern = wildcardToRegularExpression q raw,
                                rx_options = CaseInsensitiveOption \<rparr> (itemText item))"
    using re by (simp add: matchesPattern_def)
  have sub: "\<not> m_useRegExp ?g \<longrightarrow>
         matchesPattern q ?g item
           = Some (\<exists>ps ss. toLower q (itemText item) = ps @ toLower q raw @ ss)"
    using l by (simp add: matchesPattern_def contains_iff)
  from invf have modef: "m_useRegExp f \<longleftrightarrow>
         containsWildcard (pattern f)
         \<and> isValid q \<lparr> rx_pattern = wildcardToRegularExpression q (pattern f),
                        rx_options = CaseInsensitiveOption \<rparr>"
    by (simp add: filterInv_def pattern_def)
  from p l mode wild sub modef show ?thesis
    by (simp add: pattern_def containsWildcard_def)
qed

theorem pattern_mode_invariant_witness:
  "reachable qtExample newFilter
   \<and> pattern (setPattern qtExample ''*.TXT'' newFilter) = ''*.TXT''
   \<and> m_lowerCasePattern (setPattern qtExample ''*.TXT'' newFilter) = ''*.txt''
   \<and> m_useRegExp (setPattern qtExample ''*.TXT'' newFilter)
   \<and> matchesPattern qtExample (setPattern qtExample ''*.TXT'' newFilter) notesTxt = Some True
   \<and> \<not> m_useRegExp (setPattern qtExample ''['' newFilter)
   \<and> matchesPattern qtExample (setPattern qtExample ''['' newFilter)
         \<lparr> itemText = ''a[b'', isHidden = False, mimetype = ''text/plain'' \<rparr> = Some True
   \<and> \<not> m_useRegExp (setPattern qtExample ''foo'' newFilter)"
proof -
  let ?item = "\<lparr> itemText = ''a[b'', isHidden = False, mimetype = ''text/plain'' \<rparr>"
  have r: "reachable qtExample newFilter" by (rule r_new)
  note star = pattern_mode_invariant [OF r, where raw = "''*.TXT''" and item = notesTxt]
  note bracket = pattern_mode_invariant [OF r, where raw = "''[''" and item = ?item]
  note plain = pattern_mode_invariant [OF r, where raw = "''foo''" and item = notesTxt]
  have low: "toLower qtExample ''*.TXT'' = ''*.txt''" by code_simp
  have v1: "isValid qtExample \<lparr> rx_pattern = wildcardToRegularExpression qtExample ''*.TXT'',
      rx_options = CaseInsensitiveOption \<rparr>" by code_simp
  have m1: "hasMatch qtExample \<lparr> rx_pattern = wildcardToRegularExpression qtExample ''*.TXT'',
      rx_options = CaseInsensitiveOption \<rparr> (itemText notesTxt)" by code_simp
  have v2: "\<not> isValid qtExample \<lparr> rx_pattern = wildcardToRegularExpression qtExample ''['',
      rx_options = CaseInsensitiveOption \<rparr>" by code_simp
  have "toLower qtExample (itemText ?item) = ''a'' @ toLower qtExample ''['' @ ''b''"
    by code_simp
  then have m2: "\<exists>ps ss. toLower qtExample (itemText ?item) = ps @ toLower qtExample ''['' @ ss"
    by blast
  from star low v1 m1 have c1: "pattern (setPattern qtExample ''*.TXT'' newFilter) = ''*.TXT''
   \<and> m_lowerCasePattern (setPattern qtExample ''*.TXT'' newFilter) = ''*.txt''
   \<and> m_useRegExp (setPattern qtExample ''*.TXT'' newFilter)
   \<and> matchesPattern qtExample (setPattern qtExample ''*.TXT'' newFilter) notesTxt = Some True"
    by simp
  from bracket v2 m2 have c2: "\<not> m_useRegExp (setPattern qtExample ''['' newFilter)
   \<and> matchesPattern qtExample (setPattern qtExample ''['' newFilter) ?item = Some True"
    by simp
  from plain have c3: "\<not> m_useRegExp (setPattern qtExample ''foo'' newFilter)"
    by simp
  from r c1 c2 c3 show ?thesis by simp
qed

text \<open>
  Claim C6 (whitelist compilation). The matcher that the code compiles from an entry
  without wildcard characters is not an exact-match matcher. The entry \<^verbatim>\<open>.git\<close> is
  compiled to the case-insensitive pattern \<^verbatim>\<open>^\.git$\<close>, and \<^verbatim>\<open>$\<close> also matches before
  a line feed that ends the name: the hidden item whose name is \<^verbatim>\<open>.git\<close> followed by a
  line feed is on the whitelist and passes the filter, though its name is not the
  entry. The matcher of the wildcard entry \<^verbatim>\<open>.gi?\<close>, which is built between \<^verbatim>\<open>\A\<close>
  and \<^verbatim>\<open>\z\<close>, rejects that name.
\<close>

theorem whitelist_literal_not_exact:
  "m_hiddenWhitelistRegExps (setHiddenFilesWhitelist qtExample [''.git''] newFilter)
     = [\<lparr> rx_pattern = ''^'' @ [backslash] @ ''.git$'', rx_options = CaseInsensitiveOption \<rparr>]
   \<and> exactMatch ''.git'' (itemText dotGit)
   \<and> \<not> exactMatch ''.git'' (itemText dotGitNewline)
   \<and> matchesHiddenWhitelist qtExample whitelistingFilter dotGit
   \<and> matchesHiddenWhitelist qtExample whitelistingFilter dotGitNewline
   \<and> matches qtExample whitelistingFilter dotGitNewline = Some True
   \<and> \<not> matchesHiddenWhitelist qtExample
         (setHiddenFilesWhitelist qtExample [''.gi?''] newFilter) dotGitNewline"
  by code_simp

text \<open>
  Claim C7 (\<^verbatim>\<open>hasSetFilters\<close>). It is true exactly when the pattern is not empty, or
  one of the MIME lists is not empty, or hidden files are not shown. Enabling the
  whitelist or setting its patterns does not change it; it is true right after
  \<^verbatim>\<open>setHiddenFilesShown(false)\<close> and false for a newly constructed filter.
\<close>

theorem hasSetFilters_iff:
  "(hasSetFilters f \<longleftrightarrow>
      pattern f \<noteq> [] \<or> mimeTypes f \<noteq> [] \<or> excludeMimeTypes f \<noteq> [] \<or> \<not> hiddenFilesShown f)
   \<and> hasSetFilters (setHiddenFilesWhitelistEnabled enabled f) = hasSetFilters f
   \<and> hasSetFilters (setHiddenFilesWhitelist q patterns f) = hasSetFilters f
   \<and> hasSetFilters (setHiddenFilesShown False f)
   \<and> hasSetFilters (setHiddenFilesShown False newFilter)
   \<and> \<not> hasSetFilters newFilter"
  by (simp add: hasSetFilters_def pattern_def mimeTypes_def excludeMimeTypes_def
      hiddenFilesShown_def setHiddenFilesWhitelistEnabled_def setHiddenFilesWhitelist_def
      updateHiddenWhitelistRegExps_def setHiddenFilesShown_def newFilter_def Let_def)

theorem hasSetFilters_iff_witness:
  "\<not> hasSetFilters newFilter
   \<and> hasSetFilters (setHiddenFilesShown False newFilter)
   \<and> hasSetFilters (setHiddenFilesWhitelistEnabled True newFilter) = hasSetFilters newFilter
   \<and> hasSetFilters (setHiddenFilesWhitelist qtExample [''.git''] newFilter)
       = hasSetFilters newFilter
   \<and> hasSetFilters (setPattern qtExample ''foo'' newFilter)"
proof -
  note new = hasSetFilters_iff [where f = newFilter and enabled = True and q = qtExample
      and patterns = "[''.git'']"]
  note foo = hasSetFilters_iff [where f = "setPattern qtExample ''foo'' newFilter"
      and enabled = True and q = qtExample and patterns = "[]"]
  have p: "pattern (setPattern qtExample ''foo'' newFilter) \<noteq> []" by code_simp
  from foo p have c: "hasSetFilters (setPattern qtExample ''foo'' newFilter)" by blast
  from new c show ?thesis by blast
qed

text \<open>
  Claim C8 (whitelist idempotence). Setting the same whitelist twice leaves the state
  the first call produced, so the stored list and the matchers behave the same; the
  matchers depend on the list alone, not on the state before the call.
\<close>

theorem whitelist_idempotent:
  "setHiddenFilesWhitelist q patterns (setHiddenFilesWhitelist q patterns f)
       = setHiddenFilesWhitelist q patterns f
   \<and> hiddenFilesWhitelist (setHiddenFilesWhitelist q patterns f) = patterns
   \<and> m_hiddenWhitelistRegExps (setHiddenFilesWhitelist q patterns f)
       = m_hiddenWhitelistRegExps (setHiddenFilesWhitelist q patterns g)
   \<and> matchesHiddenWhitelist q
         (setHiddenFilesWhitelist q patterns (setHiddenFilesWhitelist q patterns f)) item
       = matchesHiddenWhitelist q (setHiddenFilesWhitelist q patterns f) item"
proof -
  have 1: "setHiddenFilesWhitelist q patterns (setHiddenFilesWhitelist q patterns f)
       = setHiddenFilesWhitelist q patterns f"
    by (simp add: setHiddenFilesWhitelist_def updateHiddenWhitelistRegExps_def Let_def)
  have 2: "hiddenFilesWhitelist (setHiddenFilesWhitelist q patterns f) = patterns"
    by (simp add: hiddenFilesWhitelist_def setHiddenFilesWhitelist_def
        updateHiddenWhitelistRegExps_def Let_def)
  have 3: "m_hiddenWhitelistRegExps (setHiddenFilesWhitelist q patterns f)
       = m_hiddenWhitelistRegExps (setHiddenFilesWhitelist q patterns g)"
    by (simp add: setHiddenFilesWhitelist_regExps)
  from 1 2 3 show ?thesis by simp
qed

theorem whitelist_idempotent_witness:
  "setHiddenFilesWhitelist qtExample exampleWhitelist
       (setHiddenFilesWhitelist qtExample exampleWhitelist newFilter)
     = setHiddenFilesWhitelist qtExample exampleWhitelist newFilter
   \<and> m_hiddenWhitelistRegExps (setHiddenFilesWhitelist qtExample exampleWhitelist newFilter)
     = m_hiddenWhitelistRegExps (setHiddenFilesWhitelist qtExample exampleWhitelist whitelistingFilter)"
  using whitelist_idempotent [where q = qtExample and patterns = exampleWhitelist
      and f = newFilter and g = whitelistingFilter and item = dotGit]
  by blast






end
